theory Spec2Isabelle
  imports Complex_Main "HOL-Library.Multiset"
begin

section \<open>Landmarks and geometry helpers\<close>

text \<open>
  Embedding of \<^verbatim>\<open>app/components/ObsceneGestureCensor.tsx\<close>: the helpers
  \<^verbatim>\<open>getDistance\<close> and \<^verbatim>\<open>isFingerOpen\<close>, the classifier
  \<^verbatim>\<open>detectGesture\<close> and \<^verbatim>\<open>getHandBoundingBox\<close>.

  A JavaScript \<^verbatim>\<open>number\<close> is a real number. In the classifier the arithmetic is
  exact: what is proved of it depends on the outcome of its comparisons only. In
  \<^verbatim>\<open>getHandBoundingBox\<close> every operation rounds to the nearest double, see the section
  on double arithmetic. Infinities and NaN are not part of the model. A
  \<^verbatim>\<open>NormalizedLandmark\<close> is the record of its coordinates; the code reads \<^verbatim>\<open>x\<close> and
  \<^verbatim>\<open>y\<close> only.
\<close>

record landmark =
  x :: real
  y :: real
  z :: real

text \<open>\<^verbatim>\<open>Math.hypot(a, b)\<close>.\<close>

definition hypot :: "real \<Rightarrow> real \<Rightarrow> real" where
  "hypot a b = sqrt (a\<^sup>2 + b\<^sup>2)"

definition getDistance :: "landmark \<Rightarrow> landmark \<Rightarrow> real" where
  "getDistance p1 p2 = hypot (landmark.x p1 - landmark.x p2) (landmark.y p1 - landmark.y p2)"

definition isFingerOpen :: "landmark \<Rightarrow> landmark \<Rightarrow> landmark \<Rightarrow> bool" where
  "isFingerOpen tip pip mcp =
     (let distTipMCP = getDistance tip mcp;
          distPIPMCP = getDistance pip mcp
      in distTipMCP > distPIPMCP * 1.6)"

section \<open>Array reads and the error they can raise\<close>

text \<open>
  \<^verbatim>\<open>landmarks[i]\<close> is \<^verbatim>\<open>undefined\<close> past the end of the array (here \<open>None\<close>), and
  reading a property of \<^verbatim>\<open>undefined\<close> throws a \<^verbatim>\<open>TypeError\<close>. The helpers are typed
  on landmarks; \<open>call2\<close> and \<open>call3\<close> are a call of a helper that reads a
  property of each of its arguments, with arguments that may be \<^verbatim>\<open>undefined\<close>.
\<close>

datatype error = TypeError

definition array_get :: "'a list \<Rightarrow> nat \<Rightarrow> 'a option" where
  "array_get xs i = (if i < length xs then Some (xs ! i) else None)"

definition bindE :: "error + 'a \<Rightarrow> ('a \<Rightarrow> error + 'b) \<Rightarrow> error + 'b" where
  "bindE m f = (case m of Inl e \<Rightarrow> Inl e | Inr v \<Rightarrow> f v)"

definition deref :: "landmark option \<Rightarrow> error + landmark" where
  "deref p = (case p of None \<Rightarrow> Inl TypeError | Some q \<Rightarrow> Inr q)"

definition call2 :: "(landmark \<Rightarrow> landmark \<Rightarrow> 'a) \<Rightarrow> landmark option \<Rightarrow> landmark option \<Rightarrow> error + 'a" where
  "call2 f a b = bindE (deref a) (\<lambda>p. bindE (deref b) (\<lambda>q. Inr (f p q)))"

definition call3 :: "(landmark \<Rightarrow> landmark \<Rightarrow> landmark \<Rightarrow> 'a) \<Rightarrow>
    landmark option \<Rightarrow> landmark option \<Rightarrow> landmark option \<Rightarrow> error + 'a" where
  "call3 f a b c = bindE (deref a) (\<lambda>p. bindE (deref b) (\<lambda>q. bindE (deref c) (\<lambda>r. Inr (f p q r))))"

section \<open>The classifier\<close>

text \<open>
  \<^verbatim>\<open>detectGesture\<close>, statement by statement. The result is \<open>Inl TypeError\<close> when
  the code throws, \<open>Inr None\<close> for \<^verbatim>\<open>null\<close> and \<open>Inr (Some s)\<close> for the string \<open>s\<close>.
  \<^verbatim>\<open>thumbMCP\<close> is read from the array and never used.
\<close>

definition detectGesture :: "landmark list \<Rightarrow> error + string option" where
  "detectGesture landmarks =
     (let thumbTip = array_get landmarks 4;
          thumbIP = array_get landmarks 3;
          thumbMCP = array_get landmarks 2;
          indexTip = array_get landmarks 8;
          indexPIP = array_get landmarks 6;
          indexMCP = array_get landmarks 5;
          middleTip = array_get landmarks 12;
          middlePIP = array_get landmarks 10;
          middleMCP = array_get landmarks 9;
          ringTip = array_get landmarks 16;
          ringPIP = array_get landmarks 14;
          ringMCP = array_get landmarks 13;
          pinkyTip = array_get landmarks 20;
          pinkyPIP = array_get landmarks 18;
          pinkyMCP = array_get landmarks 17
      in
      bindE (call3 isFingerOpen indexTip indexPIP indexMCP) (\<lambda>indexOpen.
      bindE (call3 isFingerOpen middleTip middlePIP middleMCP) (\<lambda>middleOpen.
      bindE (call3 isFingerOpen ringTip ringPIP ringMCP) (\<lambda>ringOpen.
      bindE (call3 isFingerOpen pinkyTip pinkyPIP pinkyMCP) (\<lambda>pinkyOpen.
      bindE (call2 getDistance thumbTip indexMCP) (\<lambda>distThumb.
      let thumbOpen = distThumb > 0.15 in
      bindE (call2 (\<lambda>t i. landmark.y t < landmark.y i) thumbTip thumbIP) (\<lambda>isThumbUp.
      bindE (call2 (\<lambda>t i. landmark.y t > landmark.y i) thumbTip thumbIP) (\<lambda>isThumbDown.
      if middleOpen \<and> \<not> indexOpen \<and> \<not> ringOpen \<and> \<not> pinkyOpen
      then Inr (Some ''MIDDLE_FINGER'')
      else
      bindE (call2 getDistance thumbTip indexTip) (\<lambda>pinchDistance.
      if pinchDistance < 0.08 \<and> middleOpen \<and> ringOpen \<and> pinkyOpen
      then Inr (Some ''OK'')
      else
      let thumbsDown =
            (if \<not> indexOpen \<and> \<not> middleOpen \<and> \<not> ringOpen \<and> \<not> pinkyOpen
             then (if thumbOpen \<and> isThumbDown then Inr (Some ''THUMBS_DOWN'') else Inr None)
             else Inr None)
      in
      if thumbOpen \<and> indexOpen \<and> \<not> middleOpen \<and> \<not> ringOpen \<and> \<not> pinkyOpen
      then (if isThumbUp then Inr (Some ''GUN'') else thumbsDown)
      else thumbsDown)))))))))"

text \<open>
  The local constants of \<^verbatim>\<open>detectGesture\<close> (lines 65 to 76 and 86 of the source) as
  functions of the array, for an array that holds the landmarks they read.
\<close>

definition indexOpen :: "landmark list \<Rightarrow> bool" where
  "indexOpen ls = isFingerOpen (ls ! 8) (ls ! 6) (ls ! 5)"

definition middleOpen :: "landmark list \<Rightarrow> bool" where
  "middleOpen ls = isFingerOpen (ls ! 12) (ls ! 10) (ls ! 9)"

definition ringOpen :: "landmark list \<Rightarrow> bool" where
  "ringOpen ls = isFingerOpen (ls ! 16) (ls ! 14) (ls ! 13)"

definition pinkyOpen :: "landmark list \<Rightarrow> bool" where
  "pinkyOpen ls = isFingerOpen (ls ! 20) (ls ! 18) (ls ! 17)"

definition thumbOpen :: "landmark list \<Rightarrow> bool" where
  "thumbOpen ls = (getDistance (ls ! 4) (ls ! 5) > 0.15)"

definition isThumbUp :: "landmark list \<Rightarrow> bool" where
  "isThumbUp ls = (landmark.y (ls ! 4) < landmark.y (ls ! 3))"

definition isThumbDown :: "landmark list \<Rightarrow> bool" where
  "isThumbDown ls = (landmark.y (ls ! 4) > landmark.y (ls ! 3))"

definition pinchDistance :: "landmark list \<Rightarrow> real" where
  "pinchDistance ls = getDistance (ls ! 4) (ls ! 8)"

text \<open>
  The four conditions that \<^verbatim>\<open>detectGesture\<close> tests (lines 80, 87, 93 with 95, and 100
  with 101 of the source), each with the string returned when it holds, in the order of the
  source, and the evaluation of such a list of rules that returns the first match.
\<close>

definition ruleMiddleFinger :: "landmark list \<Rightarrow> bool" where
  "ruleMiddleFinger ls = (middleOpen ls \<and> \<not> indexOpen ls \<and> \<not> ringOpen ls \<and> \<not> pinkyOpen ls)"

definition ruleOK :: "landmark list \<Rightarrow> bool" where
  "ruleOK ls = (pinchDistance ls < 0.08 \<and> middleOpen ls \<and> ringOpen ls \<and> pinkyOpen ls)"

definition ruleGun :: "landmark list \<Rightarrow> bool" where
  "ruleGun ls = ((thumbOpen ls \<and> indexOpen ls \<and> \<not> middleOpen ls \<and> \<not> ringOpen ls \<and> \<not> pinkyOpen ls)
     \<and> isThumbUp ls)"

definition ruleThumbsDown :: "landmark list \<Rightarrow> bool" where
  "ruleThumbsDown ls = ((\<not> indexOpen ls \<and> \<not> middleOpen ls \<and> \<not> ringOpen ls \<and> \<not> pinkyOpen ls)
     \<and> (thumbOpen ls \<and> isThumbDown ls))"

definition gestureRules :: "landmark list \<Rightarrow> (bool \<times> string) list" where
  "gestureRules ls =
     [(ruleMiddleFinger ls, ''MIDDLE_FINGER''), (ruleOK ls, ''OK''),
      (ruleGun ls, ''GUN''), (ruleThumbsDown ls, ''THUMBS_DOWN'')]"

fun firstMatch :: "(bool \<times> string) list \<Rightarrow> string option" where
  "firstMatch [] = None"
| "firstMatch ((c, g) # rs) = (if c then Some g else firstMatch rs)"

section \<open>Double arithmetic\<close>

text \<open>
  IEEE 754 binary64 with rounding to nearest, ties to even, as JavaScript has it. A finite
  double is the real number it denotes. \<open>toDouble\<close> rounds a real to the nearest double:
  53 significant bits, least exponent \<open>- 1022\<close> with the subnormal numbers below it; \<open>ulp\<close>
  is the spacing of the doubles around a number. The operations \<^verbatim>\<open>+\<close>, \<^verbatim>\<open>-\<close> and \<^verbatim>\<open>*\<close>
  return the exact result rounded, and a decimal literal denotes the nearest double.

  \<open>toDouble\<close> has no largest exponent: it is the rounding of binary64 wherever the result
  is at most \<open>maxDouble\<close> in absolute value. That is so for every operation of
  \<^verbatim>\<open>getHandBoundingBox\<close> on finite doubles: the sums and differences are those of a
  coordinate or an edge and the padding, the products lie between 0 and the width or
  height.
\<close>

definition pow2 :: "int \<Rightarrow> real" where
  "pow2 k = 2 powr real_of_int k"

definition roundTiesToEven :: "real \<Rightarrow> int" where
  "roundTiesToEven t =
     (let f = \<lfloor>t\<rfloor>; d = t - of_int f
      in if d < 1 / 2 then f else if 1 / 2 < d then f + 1 else if even f then f else f + 1)"

definition exponent :: "real \<Rightarrow> int" where
  "exponent v = max \<lfloor>log 2 \<bar>v\<bar>\<rfloor> (- 1022)"

definition ulp :: "real \<Rightarrow> real" where
  "ulp v = pow2 (exponent v - 52)"

definition toDouble :: "real \<Rightarrow> real" where
  "toDouble v = (if v = 0 then 0 else of_int (roundTiesToEven (v / ulp v)) * ulp v)"

definition maxDouble :: real where
  "maxDouble = (2 ^ 53 - 1) * 2 ^ 971"

definition isDouble :: "real \<Rightarrow> bool" where
  "isDouble v = (toDouble v = v \<and> \<bar>v\<bar> \<le> maxDouble)"

definition fadd :: "real \<Rightarrow> real \<Rightarrow> real" where
  "fadd a b = toDouble (a + b)"

definition fsub :: "real \<Rightarrow> real \<Rightarrow> real" where
  "fsub a b = toDouble (a - b)"

definition fmul :: "real \<Rightarrow> real \<Rightarrow> real" where
  "fmul a b = toDouble (a * b)"

section \<open>The bounding box\<close>

text \<open>
  \<^verbatim>\<open>getHandBoundingBox\<close>: the four mutable locals \<^verbatim>\<open>minX\<close>, \<^verbatim>\<open>minY\<close>, \<^verbatim>\<open>maxX\<close>,
  \<^verbatim>\<open>maxY\<close> are a record that the callback of \<^verbatim>\<open>forEach\<close> updates for each landmark in
  turn, starting from 1, 1, 0, 0; the returned object is the record \<open>box\<close>. The
  comparisons, \<^verbatim>\<open>Math.max\<close> and \<^verbatim>\<open>Math.min\<close> are exact; the subtractions, additions and
  multiplications round.
\<close>

record extent =
  minX :: real
  minY :: real
  maxX :: real
  maxY :: real

record box =
  x :: real
  y :: real
  w :: real
  h :: real

definition forEachBody :: "landmark \<Rightarrow> extent \<Rightarrow> extent" where
  "forEachBody p e =
     (let e1 = (if landmark.x p < minX e then e\<lparr>minX := landmark.x p\<rparr> else e);
          e2 = (if landmark.x p > maxX e1 then e1\<lparr>maxX := landmark.x p\<rparr> else e1);
          e3 = (if landmark.y p < minY e2 then e2\<lparr>minY := landmark.y p\<rparr> else e2);
          e4 = (if landmark.y p > maxY e3 then e3\<lparr>maxY := landmark.y p\<rparr> else e3)
      in e4)"

definition getHandBoundingBox :: "landmark list \<Rightarrow> real \<Rightarrow> real \<Rightarrow> box" where
  "getHandBoundingBox landmarks width height =
     (let e0 = \<lparr>minX = 1, minY = 1, maxX = 0, maxY = 0\<rparr>;
          e = fold forEachBody landmarks e0;
          padding = toDouble 0.05;
          minX' = max 0 (fsub (minX e) padding);
          minY' = max 0 (fsub (minY e) padding);
          maxX' = min 1 (fadd (maxX e) padding);
          maxY' = min 1 (fadd (maxY e) padding)
      in \<lparr>box.x = fmul minX' width, y = fmul minY' height,
          w = fmul (fsub maxX' minX') width, h = fmul (fsub maxY' minY') height\<rparr>)"

text \<open>
  The rectangle in the words of section 4.3 of the specification, to compare the code
  with: the minimal axis-aligned rectangle enclosing all landmarks (from the least to the
  greatest x, from the least to the greatest y), expanded by 0.05 in each direction, each
  edge clipped to \<open>[0, 1]\<close>, then scaled by the frame dimensions, all in exact
  arithmetic.
\<close>

definition specBoundingBox :: "landmark list \<Rightarrow> real \<Rightarrow> real \<Rightarrow> box" where
  "specBoundingBox landmarks width height =
     (let left = Min (landmark.x ` set landmarks);
          right = Max (landmark.x ` set landmarks);
          top = Min (landmark.y ` set landmarks);
          bottom = Max (landmark.y ` set landmarks);
          padding = 0.05;
          l = max 0 (min 1 (left - padding));
          r = max 0 (min 1 (right + padding));
          t = max 0 (min 1 (top - padding));
          b = max 0 (min 1 (bottom + padding))
      in \<lparr>box.x = l * width, y = t * height, w = (r - l) * width, h = (b - t) * height\<rparr>)"

section \<open>Concrete hands\<close>

text \<open>
  A hand of 21 landmarks in the order of the landmark provider, with the four knuckles on
  the line \<open>y = 0.6\<close>, the middle joints on \<open>y = 0.5\<close>, and the thumb joint, the thumb tip
  and the height of each finger tip as parameters. A finger tip at height \<open>0.3\<close> is open
  and one at \<open>0.55\<close> is closed.
\<close>

definition pt :: "real \<Rightarrow> real \<Rightarrow> landmark" where
  "pt a b = \<lparr>landmark.x = a, y = b, z = 0\<rparr>"

definition hand :: "landmark \<Rightarrow> landmark \<Rightarrow> real \<Rightarrow> real \<Rightarrow> real \<Rightarrow> real \<Rightarrow> landmark list" where
  "hand thumbIP thumbTip iy my ry py =
     [pt 0.5 0.9,
      pt 0.4 0.8, pt 0.3 0.7, thumbIP, thumbTip,
      pt 0.4 0.6, pt 0.4 0.5, pt 0.4 0.45, pt 0.4 iy,
      pt 0.5 0.6, pt 0.5 0.5, pt 0.5 0.45, pt 0.5 my,
      pt 0.6 0.6, pt 0.6 0.5, pt 0.6 0.45, pt 0.6 ry,
      pt 0.7 0.6, pt 0.7 0.5, pt 0.7 0.45, pt 0.7 py]"

text \<open>
  A hand of 21 landmarks that spans \<open>x\<close> from the double 0.2 to the double 0.6 and \<open>y\<close>
  from the double 0.3 to 0.5; its other coordinates are dyadic fractions, which are doubles.
  And a hand of 21 landmarks with one landmark at the double 0.13 in both coordinates and
  twenty at the corner \<open>(1, 1)\<close>.
\<close>

definition spanHand :: "landmark list" where
  "spanHand =
     [pt 0.375 0.5,
      pt 0.3125 0.46875, pt 0.25 0.4375, pt 0.21875 0.40625, pt (toDouble 0.2) 0.375,
      pt 0.34375 0.40625, pt 0.34375 0.375, pt 0.34375 0.34375, pt 0.34375 (toDouble 0.3),
      pt 0.4375 0.40625, pt 0.4375 0.375, pt 0.4375 0.34375, pt 0.4375 0.3125,
      pt 0.5 0.40625, pt 0.5 0.375, pt 0.5 0.34375, pt 0.5 0.328125,
      pt (toDouble 0.6) 0.4375, pt (toDouble 0.6) 0.40625, pt (toDouble 0.6) 0.390625,
      pt (toDouble 0.6) 0.375]"

definition cornerHand :: "landmark list" where
  "cornerHand = pt (toDouble 0.13) (toDouble 0.13) # replicate 20 (pt 1 1)"

section \<open>Evaluation of the classifier\<close>

lemma array_get_in_range: "i < length xs \<Longrightarrow> array_get xs i = Some (xs ! i)"
  by (simp add: array_get_def)

lemma call2_Some: "call2 f (Some p) (Some q) = Inr (f p q)"
  by (simp add: call2_def bindE_def deref_def)

lemma call3_Some: "call3 f (Some p) (Some q) (Some r) = Inr (f p q r)"
  by (simp add: call3_def bindE_def deref_def)

lemma bindE_Inr: "bindE (Inr v) f = f v"
  by (simp add: bindE_def)

lemma detectGesture_unfold:
  assumes "21 \<le> length ls"
  shows "detectGesture ls =
    (if middleOpen ls \<and> \<not> indexOpen ls \<and> \<not> ringOpen ls \<and> \<not> pinkyOpen ls
     then Inr (Some ''MIDDLE_FINGER'')
     else if pinchDistance ls < 0.08 \<and> middleOpen ls \<and> ringOpen ls \<and> pinkyOpen ls
     then Inr (Some ''OK'')
     else if thumbOpen ls \<and> indexOpen ls \<and> \<not> middleOpen ls \<and> \<not> ringOpen ls \<and> \<not> pinkyOpen ls
          \<and> isThumbUp ls
     then Inr (Some ''GUN'')
     else if \<not> indexOpen ls \<and> \<not> middleOpen ls \<and> \<not> ringOpen ls \<and> \<not> pinkyOpen ls
          \<and> thumbOpen ls \<and> isThumbDown ls
     then Inr (Some ''THUMBS_DOWN'')
     else Inr None)"
proof -
  have g: "array_get ls i = Some (ls ! i)" if "i < 21" for i
    using that assms by (intro array_get_in_range) simp
  show ?thesis
    unfolding detectGesture_def Let_def
    by (simp add: g call2_Some call3_Some bindE_Inr indexOpen_def middleOpen_def ringOpen_def
        pinkyOpen_def thumbOpen_def isThumbUp_def isThumbDown_def pinchDistance_def)
qed

text \<open>
  Open by the distance-ratio rule: the tip is more than 1.6 times as far from the knuckle
  as the middle joint is.
\<close>

lemma open_by_ratio:
  "indexOpen ls = (getDistance (ls ! 8) (ls ! 5) > 1.6 * getDistance (ls ! 6) (ls ! 5))"
  "middleOpen ls = (getDistance (ls ! 12) (ls ! 9) > 1.6 * getDistance (ls ! 10) (ls ! 9))"
  "ringOpen ls = (getDistance (ls ! 16) (ls ! 13) > 1.6 * getDistance (ls ! 14) (ls ! 13))"
  "pinkyOpen ls = (getDistance (ls ! 20) (ls ! 17) > 1.6 * getDistance (ls ! 18) (ls ! 17))"
  by (simp_all add: indexOpen_def middleOpen_def ringOpen_def pinkyOpen_def isFingerOpen_def
      mult.commute)

subsection \<open>Distances compared through their squares\<close>

lemma hypot_gt_iff: "0 \<le> c \<Longrightarrow> (c < hypot a b) = (c\<^sup>2 < a\<^sup>2 + b\<^sup>2)"
  unfolding hypot_def
  by (metis abs_of_nonneg real_sqrt_abs real_sqrt_less_iff)



lemma hypot_scaled:
  assumes "0 \<le> k"
  shows "hypot a b * k = hypot (a * k) (b * k)"
proof -
  have "(a * k)\<^sup>2 + (b * k)\<^sup>2 = (a\<^sup>2 + b\<^sup>2) * k\<^sup>2"
    by (simp add: power_mult_distrib distrib_right)
  then have "hypot (a * k) (b * k) = sqrt (a\<^sup>2 + b\<^sup>2) * sqrt (k\<^sup>2)"
    by (simp add: hypot_def real_sqrt_mult)
  with assms show ?thesis
    by (simp add: hypot_def)
qed

lemma isFingerOpen_iff:
  "isFingerOpen tip pip mcp =
     (((landmark.x pip - landmark.x mcp)\<^sup>2 + (landmark.y pip - landmark.y mcp)\<^sup>2) * 2.56
       < (landmark.x tip - landmark.x mcp)\<^sup>2 + (landmark.y tip - landmark.y mcp)\<^sup>2)"
proof -
  have s: "hypot a b * 1.6 = hypot (a * 1.6) (b * 1.6)" for a b
    by (rule hypot_scaled) simp
  have e: "(a * 1.6)\<^sup>2 + (b * 1.6)\<^sup>2 = (a\<^sup>2 + b\<^sup>2) * 2.56" for a b :: real
    by (simp add: power2_eq_square algebra_simps)
  show ?thesis
    unfolding isFingerOpen_def getDistance_def Let_def s
    unfolding hypot_def real_sqrt_less_iff e ..
qed

lemma thumbOpen_iff:
  "thumbOpen ls = (0.15\<^sup>2 <
     (landmark.x (ls ! 4) - landmark.x (ls ! 5))\<^sup>2 + (landmark.y (ls ! 4) - landmark.y (ls ! 5))\<^sup>2)"
  unfolding thumbOpen_def getDistance_def
  by (rule hypot_gt_iff) simp


subsection \<open>The finger states of the concrete hands\<close>

lemma length_hand: "length (hand thumbIP thumbTip iy my ry py) = 21"
  by (simp add: hand_def)

lemma indexOpen_hand: "indexOpen (hand thumbIP thumbTip iy my ry py) = (0.16\<^sup>2 < (iy - 0.6)\<^sup>2)"
  by (simp add: indexOpen_def hand_def isFingerOpen_iff pt_def power2_eq_square)

lemma middleOpen_hand: "middleOpen (hand thumbIP thumbTip iy my ry py) = (0.16\<^sup>2 < (my - 0.6)\<^sup>2)"
  by (simp add: middleOpen_def hand_def isFingerOpen_iff pt_def power2_eq_square)

lemma ringOpen_hand: "ringOpen (hand thumbIP thumbTip iy my ry py) = (0.16\<^sup>2 < (ry - 0.6)\<^sup>2)"
  by (simp add: ringOpen_def hand_def isFingerOpen_iff pt_def power2_eq_square)

lemma pinkyOpen_hand: "pinkyOpen (hand thumbIP thumbTip iy my ry py) = (0.16\<^sup>2 < (py - 0.6)\<^sup>2)"
  by (simp add: pinkyOpen_def hand_def isFingerOpen_iff pt_def power2_eq_square)

lemma thumbOpen_hand:
  "thumbOpen (hand thumbIP (pt a b) iy my ry py) = (0.15\<^sup>2 < (a - 0.4)\<^sup>2 + (b - 0.6)\<^sup>2)"
  by (simp add: thumbOpen_iff hand_def pt_def)


lemma isThumbUp_hand: "isThumbUp (hand (pt c d) (pt a b) iy my ry py) = (b < d)"
  by (simp add: isThumbUp_def hand_def pt_def)

lemma isThumbDown_hand: "isThumbDown (hand (pt c d) (pt a b) iy my ry py) = (d < b)"
  by (simp add: isThumbDown_def hand_def pt_def)

lemmas hand_simps = length_hand indexOpen_hand middleOpen_hand ringOpen_hand pinkyOpen_hand
  thumbOpen_hand isThumbUp_hand isThumbDown_hand power2_eq_square

subsection \<open>Short arrays and first-match evaluation\<close>

lemma bindE_TypeError: "(\<And>v. f v = Inl TypeError) \<Longrightarrow> bindE m f = Inl TypeError"
  by (cases m) (simp_all add: bindE_def, metis error.exhaust)

lemma detectGesture_short:
  assumes "length ls < 21"
  shows "detectGesture ls = Inl TypeError"
proof -
  have n: "array_get ls 20 = None"
    using assms by (simp add: array_get_def)
  have p: "call3 isFingerOpen (array_get ls 20) b c = Inl TypeError" for b c
    by (simp add: n call3_def bindE_def deref_def)
  show ?thesis
    unfolding detectGesture_def Let_def
    by (rule bindE_TypeError, rule bindE_TypeError, rule bindE_TypeError) (simp add: p bindE_def)
qed

lemma detectGesture_firstMatch:
  "21 \<le> length ls \<Longrightarrow> detectGesture ls = Inr (firstMatch (gestureRules ls))"
  by (simp add: detectGesture_unfold gestureRules_def ruleMiddleFinger_def ruleOK_def
      ruleGun_def ruleThumbsDown_def)

lemma rules_at_most_one: "length (filter fst (gestureRules ls)) \<le> 1"
  by (auto simp: gestureRules_def ruleMiddleFinger_def ruleOK_def ruleGun_def ruleThumbsDown_def)

lemma firstMatch_filter:
  "firstMatch rs = (case filter fst rs of [] \<Rightarrow> None | r # _ \<Rightarrow> Some (snd r))"
  by (induction rs rule: firstMatch.induct) simp_all

lemma short_list_mset_eq:
  assumes "mset xs = mset ys" and "length ys \<le> 1"
  shows "xs = ys"
proof (cases ys)
  case Nil
  with assms show ?thesis by simp
next
  case (Cons b bs)
  with assms have "bs = []" by simp
  with Cons assms show ?thesis by (cases xs) (auto dest: mset_eq_length)
qed

lemma firstMatch_permuted:
  assumes "mset rs = mset qs" and "length (filter fst qs) \<le> 1"
  shows "firstMatch rs = firstMatch qs"
proof -
  have "mset (filter fst rs) = mset (filter fst qs)"
    using assms(1) by (simp add: mset_filter)
  then have "filter fst rs = filter fst qs"
    using assms(2) by (rule short_list_mset_eq)
  then show ?thesis
    by (simp add: firstMatch_filter)
qed

section \<open>Claims about the classifier\<close>












text \<open>
  C8. For every array of at least 21 landmarks, every read \<^verbatim>\<open>landmarks[i]\<close> with
  \<open>i \<le> 20\<close> yields a landmark, and \<^verbatim>\<open>detectGesture\<close> returns one of
  \<^verbatim>\<open>"MIDDLE_FINGER"\<close>, \<^verbatim>\<open>"OK"\<close>, \<^verbatim>\<open>"GUN"\<close>, \<^verbatim>\<open>"THUMBS_DOWN"\<close> or \<^verbatim>\<open>null\<close>; it does not
  throw.
\<close>

theorem detectGesture_total:
  assumes "21 \<le> length ls"
  shows "(\<forall>i \<le> 20. array_get ls i = Some (ls ! i))
       \<and> detectGesture ls \<in> {Inr None, Inr (Some ''MIDDLE_FINGER''), Inr (Some ''OK''),
            Inr (Some ''GUN''), Inr (Some ''THUMBS_DOWN'')}"
  using assms by (simp add: detectGesture_unfold array_get_def)

theorem detectGesture_total_witness:
  "array_get (hand (pt 0.25 0.6) (pt 0.2 0.5) 0.3 0.55 0.55 0.55) 20 = Some (pt 0.7 0.55)
   \<and> detectGesture (hand (pt 0.25 0.6) (pt 0.2 0.5) 0.3 0.55 0.55 0.55)
       \<in> {Inr None, Inr (Some ''MIDDLE_FINGER''), Inr (Some ''OK''),
            Inr (Some ''GUN''), Inr (Some ''THUMBS_DOWN'')}"
proof -
  let ?h = "hand (pt 0.25 0.6) (pt 0.2 0.5) 0.3 0.55 0.55 0.55"
  have l: "21 \<le> length ?h"
    by (simp add: length_hand)
  note t = detectGesture_total [OF l]
  from t have "array_get ?h 20 = Some (?h ! 20)"
    by simp
  moreover have "?h ! 20 = pt 0.7 0.55"
    by (simp add: hand_def)
  ultimately have a: "array_get ?h 20 = Some (pt 0.7 0.55)"
    by simp
  from t have b: "detectGesture ?h \<in> {Inr None, Inr (Some ''MIDDLE_FINGER''), Inr (Some ''OK''),
      Inr (Some ''GUN''), Inr (Some ''THUMBS_DOWN'')}"
    by (rule conjunct2)
  from a b show ?thesis
    by (rule conjI)
qed

text \<open>
  C9. For every array of 21 landmarks (or more), at most one of the four conditions that
  \<^verbatim>\<open>detectGesture\<close> tests holds, and evaluating the four rules in any order, returning
  the first match, gives the result of \<^verbatim>\<open>detectGesture\<close>.
\<close>

theorem detectGesture_order_independent:
  assumes "21 \<le> length ls" and "mset rs = mset (gestureRules ls)"
  shows "length (filter fst (gestureRules ls)) \<le> 1 \<and> detectGesture ls = Inr (firstMatch rs)"
proof -
  have "firstMatch rs = firstMatch (gestureRules ls)"
    using assms(2) rules_at_most_one by (rule firstMatch_permuted)
  with assms(1) rules_at_most_one [of ls] show ?thesis
    by (simp add: detectGesture_firstMatch)
qed

theorem detectGesture_order_independent_witness:
  "detectGesture (hand (pt 0.25 0.6) (pt 0.2 0.5) 0.3 0.55 0.55 0.55)
     = Inr (firstMatch (rev (gestureRules (hand (pt 0.25 0.6) (pt 0.2 0.5) 0.3 0.55 0.55 0.55))))
   \<and> firstMatch (rev (gestureRules (hand (pt 0.25 0.6) (pt 0.2 0.5) 0.3 0.55 0.55 0.55))) = Some ''GUN''"
proof -
  let ?h = "hand (pt 0.25 0.6) (pt 0.2 0.5) 0.3 0.55 0.55 0.55"
  have "firstMatch (rev (gestureRules ?h)) = Some ''GUN''"
    by (simp add: gestureRules_def ruleMiddleFinger_def ruleOK_def ruleGun_def ruleThumbsDown_def
        hand_simps)
  then show ?thesis
    using detectGesture_order_independent [of ?h "rev (gestureRules ?h)"]
    by (simp add: length_hand)
qed

section \<open>Claims about the bounding box\<close>

subsection \<open>Rounding to the nearest double\<close>

lemma pow2_pos: "0 < pow2 k"
  by (simp add: pow2_def)

lemma pow2_add: "pow2 (a + b) = pow2 a * pow2 b"
  by (simp add: pow2_def powr_add)

lemma pow2_mono: "a \<le> b \<Longrightarrow> pow2 a \<le> pow2 b"
  by (simp add: pow2_def)

lemma pow2_0: "pow2 0 = 1"
  by (simp add: pow2_def)

lemma pow2_1: "pow2 1 = 2"
  by (simp add: pow2_def)

lemma pow2_numeral: "pow2 (numeral k) = 2 ^ numeral k"
  by (simp add: pow2_def powr_numeral flip: powr_realpow)

lemma pow2_neg_numeral: "pow2 (- numeral k) = 1 / 2 ^ numeral k"
  using pow2_numeral [of k] pow2_add [of "numeral k" "- numeral k"]
  by (simp add: pow2_0 field_simps)

lemma pow2_shift: "pow2 e = 2 ^ 52 * pow2 (e - 52)" "pow2 (e + 1) = 2 ^ 53 * pow2 (e - 52)"
proof -
  have "pow2 e = pow2 (52 + (e - 52))"
    by simp
  also have "\<dots> = pow2 52 * pow2 (e - 52)"
    by (rule pow2_add)
  finally show "pow2 e = 2 ^ 52 * pow2 (e - 52)"
    by (simp add: pow2_numeral)
  have "e + 1 = 53 + (e - 52)"
    by simp
  then have "pow2 (e + 1) = pow2 (53 + (e - 52))"
    by (rule arg_cong)
  also have "\<dots> = pow2 53 * pow2 (e - 52)"
    by (rule pow2_add)
  finally show "pow2 (e + 1) = 2 ^ 53 * pow2 (e - 52)"
    by (simp add: pow2_numeral)
qed

lemma roundTiesToEven_of_int: "roundTiesToEven (of_int n) = n"
  by (simp add: roundTiesToEven_def)

lemma roundTiesToEven_range:
  "\<lfloor>t\<rfloor> \<le> roundTiesToEven t" "roundTiesToEven t \<le> \<lfloor>t\<rfloor> + 1"
  by (simp_all add: roundTiesToEven_def Let_def)

lemma roundTiesToEven_mono:
  assumes "s \<le> t"
  shows "roundTiesToEven s \<le> roundTiesToEven t"
proof (cases "\<lfloor>s\<rfloor> = \<lfloor>t\<rfloor>")
  case True
  with assms have "s - of_int \<lfloor>s\<rfloor> \<le> t - of_int \<lfloor>t\<rfloor>"
    by simp
  with True show ?thesis
    by (auto simp: roundTiesToEven_def Let_def)
next
  case False
  with assms have "\<lfloor>s\<rfloor> < \<lfloor>t\<rfloor>"
    by (simp add: floor_mono order.strict_iff_order)
  then have "\<lfloor>s\<rfloor> + 1 \<le> \<lfloor>t\<rfloor>"
    by simp
  with roundTiesToEven_range(2) [of s] roundTiesToEven_range(1) [of t] show ?thesis
    by linarith
qed

lemma roundTiesToEven_ge: "of_int n \<le> t \<Longrightarrow> n \<le> roundTiesToEven t"
  using roundTiesToEven_mono [of "of_int n" t] by (simp add: roundTiesToEven_of_int)

lemma roundTiesToEven_le: "t \<le> of_int n \<Longrightarrow> roundTiesToEven t \<le> n"
  using roundTiesToEven_mono [of t "of_int n"] by (simp add: roundTiesToEven_of_int)

lemma exponent_bounds:
  assumes "v \<noteq> 0"
  shows "\<bar>v\<bar> < pow2 (exponent v + 1)" and "- 1022 < exponent v \<Longrightarrow> pow2 (exponent v) \<le> \<bar>v\<bar>"
proof -
  from assms have p: "0 < \<bar>v\<bar>" by simp
  let ?k = "\<lfloor>log 2 \<bar>v\<bar>\<rfloor>"
  have "?k = ?k" ..
  then have b: "2 powr real_of_int ?k \<le> \<bar>v\<bar>" "\<bar>v\<bar> < 2 powr (real_of_int ?k + 1)"
    using floor_log_eq_powr_iff [of "\<bar>v\<bar>" 2 ?k] p by simp_all
  have "?k + 1 \<le> exponent v + 1"
    by (simp add: exponent_def)
  then have m: "pow2 (?k + 1) \<le> pow2 (exponent v + 1)"
    by (rule pow2_mono)
  from b(2) have "\<bar>v\<bar> < pow2 (?k + 1)"
    by (simp add: pow2_def)
  then show "\<bar>v\<bar> < pow2 (exponent v + 1)"
    using m by (rule less_le_trans)
  show "pow2 (exponent v) \<le> \<bar>v\<bar>" if "- 1022 < exponent v"
  proof -
    from that have "exponent v = ?k"
      by (simp add: exponent_def max_def split: if_splits)
    with b(1) show ?thesis
      by (simp add: pow2_def)
  qed
qed

lemma exponent_mono:
  assumes "0 < u" and "u \<le> v"
  shows "exponent u \<le> exponent v"
proof -
  from assms have "log 2 \<bar>u\<bar> \<le> log 2 \<bar>v\<bar>"
    by simp
  then have "\<lfloor>log 2 \<bar>u\<bar>\<rfloor> \<le> \<lfloor>log 2 \<bar>v\<bar>\<rfloor>"
    by (rule floor_mono)
  then show ?thesis
    unfolding exponent_def by (intro max.mono order_refl)
qed

lemma toDouble_nonneg: "0 \<le> v \<Longrightarrow> 0 \<le> toDouble v"
  by (simp add: toDouble_def ulp_def roundTiesToEven_ge pow2_pos less_imp_le)

lemma toDouble_nonpos: "v \<le> 0 \<Longrightarrow> toDouble v \<le> 0"
proof -
  assume "v \<le> 0"
  then have "v / pow2 (exponent v - 52) \<le> of_int 0"
    by (simp add: divide_nonpos_pos pow2_pos)
  then have "roundTiesToEven (v / pow2 (exponent v - 52)) \<le> 0"
    by (rule roundTiesToEven_le)
  then show ?thesis
    by (simp add: toDouble_def ulp_def mult_le_0_iff pow2_pos less_imp_le)
qed

lemma toDouble_le_pow2:
  assumes "0 < u"
  shows "toDouble u \<le> pow2 (exponent u + 1)"
proof -
  let ?q = "pow2 (exponent u - 52)"
  have q: "0 < ?q" by (rule pow2_pos)
  have "u < pow2 (exponent u + 1)"
    using exponent_bounds(1) [of u] assms by simp
  also have "pow2 (exponent u + 1) = 2 ^ 53 * ?q"
    by (rule pow2_shift)
  finally have "u / ?q \<le> of_int (2 ^ 53)"
    using q by (simp add: field_simps)
  then have "roundTiesToEven (u / ?q) \<le> 2 ^ 53"
    by (rule roundTiesToEven_le)
  then have "of_int (roundTiesToEven (u / ?q)) \<le> (2 ^ 53 :: real)"
    by (metis of_int_le_iff of_int_numeral of_int_power)
  then have "of_int (roundTiesToEven (u / ?q)) * ?q \<le> 2 ^ 53 * ?q"
    using q by simp
  moreover have "pow2 (exponent u + 1) = 2 ^ 53 * ?q"
    by (rule pow2_shift)
  ultimately show ?thesis
    using assms by (simp add: toDouble_def ulp_def)
qed

lemma toDouble_ge_pow2:
  assumes "0 < v" and "- 1022 < exponent v"
  shows "pow2 (exponent v) \<le> toDouble v"
proof -
  let ?q = "pow2 (exponent v - 52)"
  have q: "0 < ?q" by (rule pow2_pos)
  have e: "pow2 (exponent v) = 2 ^ 52 * ?q"
    by (rule pow2_shift)
  have "pow2 (exponent v) \<le> v"
    using exponent_bounds(2) [of v] assms by simp
  then have "of_int (2 ^ 52) \<le> v / ?q"
    using q by (simp add: e field_simps)
  then have "2 ^ 52 \<le> roundTiesToEven (v / ?q)"
    by (rule roundTiesToEven_ge)
  then have "(2 ^ 52 :: real) \<le> of_int (roundTiesToEven (v / ?q))"
    by (metis of_int_le_iff of_int_numeral of_int_power)
  then have "2 ^ 52 * ?q \<le> of_int (roundTiesToEven (v / ?q)) * ?q"
    using q by simp
  then show ?thesis
    using assms by (simp add: toDouble_def ulp_def e)
qed

lemma toDouble_mono_nonneg:
  assumes "0 \<le> u" and "u \<le> v"
  shows "toDouble u \<le> toDouble v"
proof (cases "u = 0")
  case True
  with assms have "0 \<le> v" by simp
  then have "0 \<le> toDouble v"
    by (rule toDouble_nonneg)
  moreover have "toDouble 0 = 0"
    by (simp add: toDouble_def ulp_def)
  ultimately show ?thesis
    using True by simp
next
  case False
  with assms have pos: "0 < u" "0 < v" by simp_all
  have le: "exponent u \<le> exponent v"
    using pos(1) assms(2) by (rule exponent_mono)
  show ?thesis
  proof (cases "exponent u = exponent v")
    case True
    let ?q = "pow2 (exponent v - 52)"
    have "u / ?q \<le> v / ?q"
      using assms(2) pow2_pos [of "exponent v - 52"] by (simp add: divide_right_mono)
    then have "roundTiesToEven (u / ?q) \<le> roundTiesToEven (v / ?q)"
      by (rule roundTiesToEven_mono)
    then have "of_int (roundTiesToEven (u / ?q)) * ?q \<le> of_int (roundTiesToEven (v / ?q)) * ?q"
      using pow2_pos [of "exponent v - 52"] by simp
    with pos True show ?thesis
      by (simp add: toDouble_def ulp_def)
  next
    case False
    with le have lt: "exponent u + 1 \<le> exponent v" by simp
    have "- 1022 \<le> exponent u"
      by (simp add: exponent_def)
    with lt have "- 1022 < exponent v" by simp
    with pos(2) have "pow2 (exponent v) \<le> toDouble v"
      by (rule toDouble_ge_pow2)
    moreover have "toDouble u \<le> pow2 (exponent u + 1)"
      using pos(1) by (rule toDouble_le_pow2)
    moreover have "pow2 (exponent u + 1) \<le> pow2 (exponent v)"
      using lt by (rule pow2_mono)
    ultimately show ?thesis
      by linarith
  qed
qed

lemma toDouble_eval:
  assumes "pow2 e \<le> \<bar>v\<bar>" and "\<bar>v\<bar> < pow2 (e + 1)" and "- 1022 \<le> e"
  shows "toDouble v = of_int (roundTiesToEven (v / pow2 (e - 52))) * pow2 (e - 52)"
proof -
  have p: "0 < \<bar>v\<bar>"
    using assms(1) pow2_pos [of e] by linarith
  then have nz: "v \<noteq> 0" by auto
  have "\<lfloor>log 2 \<bar>v\<bar>\<rfloor> = e"
    using floor_log_eq_powr_iff [of "\<bar>v\<bar>" 2 e] p assms(1,2) by (simp add: pow2_def)
  with assms(3) have "exponent v = e"
    by (simp add: exponent_def)
  with nz show ?thesis
    by (simp add: toDouble_def ulp_def)
qed

lemma pow2_m1: "pow2 (- 1) = 1 / 2"
  using pow2_add [of 1 "- 1"] by (simp add: pow2_0 pow2_1)

lemma toDouble_1: "toDouble 1 = 1"
  by (subst toDouble_eval [of 0]) (simp_all add: pow2_0 pow2_1 pow2_numeral pow2_neg_numeral roundTiesToEven_def)

lemma toDouble_0: "toDouble 0 = 0"
  by (simp add: toDouble_def)

lemma toDouble_mono:
  assumes "u \<le> v" and "0 \<le> v"
  shows "toDouble u \<le> toDouble v"
proof (cases "0 \<le> u")
  case True
  then show ?thesis
    using assms(1) by (rule toDouble_mono_nonneg)
next
  case False
  then have "toDouble u \<le> 0"
    by (simp add: toDouble_nonpos)
  moreover have "0 \<le> toDouble v"
    using assms(2) by (rule toDouble_nonneg)
  ultimately show ?thesis
    by linarith
qed

lemma toDouble_le_1: "v \<le> 1 \<Longrightarrow> toDouble v \<le> 1"
  using toDouble_mono [of v 1] by (simp add: toDouble_1)

lemma ulp_pos: "0 < ulp v"
  by (simp add: ulp_def pow2_pos)

lemma roundTiesToEven_error: "\<bar>of_int (roundTiesToEven t) - t\<bar> \<le> 1 / 2"
proof -
  have "of_int \<lfloor>t\<rfloor> \<le> t" "t < of_int \<lfloor>t\<rfloor> + 1"
    by linarith+
  then show ?thesis
    by (auto simp: roundTiesToEven_def Let_def)
qed

lemma toDouble_error: "\<bar>toDouble v - v\<bar> \<le> ulp v / 2"
proof (cases "v = 0")
  case True
  then show ?thesis
    using ulp_pos [of v] by (simp add: toDouble_0)
next
  case False
  let ?q = "ulp v"
  have q: "0 < ?q" by (rule ulp_pos)
  have "toDouble v - v = (of_int (roundTiesToEven (v / ?q)) - v / ?q) * ?q"
    using False q by (simp add: toDouble_def field_simps)
  then have "\<bar>toDouble v - v\<bar> = \<bar>of_int (roundTiesToEven (v / ?q)) - v / ?q\<bar> * ?q"
    using q by (simp add: abs_mult)
  also have "\<dots> \<le> 1 / 2 * ?q"
    using roundTiesToEven_error [of "v / ?q"] q by (intro mult_right_mono) simp_all
  finally show ?thesis
    by simp
qed

lemma ulp_mono:
  assumes "0 < u" and "u \<le> v"
  shows "ulp u \<le> ulp v"
  unfolding ulp_def using exponent_mono [OF assms] by (intro pow2_mono) simp

lemma exponent_small:
  assumes "v \<noteq> 0" and "\<bar>v\<bar> < 2"
  shows "exponent v \<le> 0"
proof -
  have "log 2 \<bar>v\<bar> < 1"
    using assms by (simp add: log_less_iff)
  then have "\<lfloor>log 2 \<bar>v\<bar>\<rfloor> < 1"
    by (simp add: floor_less_iff)
  then show ?thesis
    by (simp add: exponent_def)
qed

lemma toDouble_error_small:
  assumes "\<bar>v\<bar> < 2"
  shows "\<bar>toDouble v - v\<bar> \<le> 1 / 2 ^ 53"
proof (cases "v = 0")
  case True
  then show ?thesis
    by (simp add: toDouble_0)
next
  case False
  then have "exponent v - 52 \<le> - 52"
    using exponent_small [OF False assms] by simp
  then have "ulp v \<le> pow2 (- 52)"
    unfolding ulp_def by (rule pow2_mono)
  then have "ulp v / 2 \<le> 1 / 2 ^ 53"
    by (simp add: pow2_neg_numeral)
  with toDouble_error [of v] show ?thesis
    by linarith
qed

lemma toDouble_error_below:
  assumes "0 \<le> u" and "u \<le> W"
  shows "\<bar>toDouble u - u\<bar> \<le> ulp W / 2"
proof (cases "u = 0")
  case True
  then show ?thesis
    using ulp_pos [of W] by (simp add: toDouble_0)
next
  case False
  with assms have "ulp u \<le> ulp W"
    by (intro ulp_mono) simp_all
  with toDouble_error [of u] show ?thesis
    by linarith
qed

lemma ulp_relative:
  assumes "0 \<le> W"
  shows "W / 2 ^ 53 \<le> ulp W"
proof (cases "W = 0")
  case True
  then show ?thesis
    using ulp_pos [of W] by simp
next
  case False
  with assms have "W < pow2 (exponent W + 1)"
    using exponent_bounds(1) [of W] by simp
  also have "\<dots> = 2 ^ 53 * ulp W"
    unfolding ulp_def by (rule pow2_shift)
  finally show ?thesis
    by (simp add: field_simps)
qed

lemma padding_value: "toDouble 0.05 = 7205759403792794 / 2 ^ 57"
  by (subst toDouble_eval [of "- 5"]) (simp_all add: pow2_neg_numeral roundTiesToEven_def)

lemma padding_bounds: "0 \<le> toDouble 0.05" "\<bar>toDouble 0.05 - 0.05\<bar> \<le> 1 / 2 ^ 58" "toDouble 0.05 \<le> 1 / 2"
  unfolding padding_value by simp_all

lemma axis_edges:
  fixes lo hi :: real
  assumes "lo \<le> hi" and "lo \<le> 1" and "0 \<le> hi"
  defines "a \<equiv> max 0 (fsub lo (toDouble 0.05))" and "b \<equiv> min 1 (fadd hi (toDouble 0.05))"
  shows "0 \<le> a" and "a \<le> b" and "b \<le> 1"
proof -
  let ?P = "toDouble 0.05"
  have P: "0 \<le> ?P" by (rule padding_bounds)
  have A1: "fsub lo ?P \<le> 1"
    unfolding fsub_def using assms(2) P by (intro toDouble_le_1) linarith
  have B0: "0 \<le> fadd hi ?P"
    unfolding fadd_def using assms(3) P by (intro toDouble_nonneg) linarith
  have AB: "fsub lo ?P \<le> fadd hi ?P"
    unfolding fsub_def fadd_def using assms(1,3) P by (intro toDouble_mono) linarith+
  show "0 \<le> a" "b \<le> 1"
    by (simp_all add: a_def b_def)
  show "a \<le> b"
    using A1 B0 AB by (simp add: a_def b_def)
qed

lemma scaled_bounds:
  assumes "0 \<le> c" and "c \<le> 1" and "0 \<le> W"
  shows "0 \<le> fmul c W" and "fmul c W \<le> toDouble W" and "fmul c W \<le> c * W + ulp W / 2"
    and "c * W - ulp W / 2 \<le> fmul c W"
proof -
  have n: "0 \<le> c * W"
    using assms(1,3) by simp
  have u: "c * W \<le> W"
    using mult_right_mono [OF assms(2,3)] by simp
  show "0 \<le> fmul c W"
    unfolding fmul_def using n by (rule toDouble_nonneg)
  show "fmul c W \<le> toDouble W"
    unfolding fmul_def using u assms(3) by (rule toDouble_mono)
  have "\<bar>toDouble (c * W) - c * W\<bar> \<le> ulp W / 2"
    using n u by (rule toDouble_error_below)
  then show "fmul c W \<le> c * W + ulp W / 2" "c * W - ulp W / 2 \<le> fmul c W"
    unfolding fmul_def by linarith+
qed

lemma extent_bounds:
  assumes "0 \<le> a" and "a \<le> b" and "b \<le> 1"
  shows "0 \<le> fsub b a" and "fsub b a \<le> 1" and "\<bar>fsub b a - (b - a)\<bar> \<le> 1 / 2 ^ 53"
proof -
  have d: "0 \<le> b - a" "b - a \<le> 1"
    using assms by linarith+
  show "0 \<le> fsub b a"
    unfolding fsub_def using d(1) by (rule toDouble_nonneg)
  show "fsub b a \<le> 1"
    unfolding fsub_def using d(2) by (rule toDouble_le_1)
  have "\<bar>b - a\<bar> < 2"
    using d by linarith
  then show "\<bar>fsub b a - (b - a)\<bar> \<le> 1 / 2 ^ 53"
    unfolding fsub_def by (rule toDouble_error_small)
qed

lemma axis_frame:
  fixes lo hi W :: real
  assumes "lo \<le> hi" and "lo \<le> 1" and "0 \<le> hi" and "0 \<le> W"
  defines "a \<equiv> max 0 (fsub lo (toDouble 0.05))" and "b \<equiv> min 1 (fadd hi (toDouble 0.05))"
  shows "0 \<le> fmul a W" and "fmul a W \<le> toDouble W"
    and "0 \<le> fmul (fsub b a) W" and "fmul (fsub b a) W \<le> toDouble W"
    and "fmul a W + fmul (fsub b a) W \<le> W + 2 * ulp W"
proof -
  note e = axis_edges [OF assms(1-3), folded a_def b_def]
  have a1: "a \<le> 1"
    using e by linarith
  note d = extent_bounds [OF e]
  note sa = scaled_bounds [OF e(1) a1 assms(4)]
  note sd = scaled_bounds [OF d(1,2) assms(4)]
  show "0 \<le> fmul a W" "fmul a W \<le> toDouble W"
    "0 \<le> fmul (fsub b a) W" "fmul (fsub b a) W \<le> toDouble W"
    by (rule sa sd)+
  have "fsub b a \<le> b - a + 1 / 2 ^ 53"
    using d(3) by linarith
  then have "fsub b a * W \<le> (b - a + 1 / 2 ^ 53) * W"
    using assms(4) by (rule mult_right_mono)
  moreover have "b * W \<le> W"
    using mult_right_mono [OF e(3) assms(4)] by simp
  moreover have "W / 2 ^ 53 \<le> ulp W"
    using assms(4) by (rule ulp_relative)
  ultimately show "fmul a W + fmul (fsub b a) W \<le> W + 2 * ulp W"
    using sa(3) sd(3) by (simp add: algebra_simps)
qed

lemma abs_diff_step:
  fixes u v p q :: real
  assumes "\<bar>u - (v - p)\<bar> \<le> e1" and "\<bar>p - q\<bar> \<le> e2"
  shows "\<bar>u - (v - q)\<bar> \<le> e1 + e2"
  using assms by linarith

lemma abs_sum_step:
  fixes u v p q :: real
  assumes "\<bar>u - (v + p)\<bar> \<le> e1" and "\<bar>p - q\<bar> \<le> e2"
  shows "\<bar>u - (v + q)\<bar> \<le> e1 + e2"
  using assms by linarith

lemma max0_error:
  fixes u v :: real
  assumes "\<bar>u - v\<bar> \<le> e"
  shows "\<bar>max 0 u - max 0 v\<bar> \<le> e"
  using assms by linarith

lemma min1_error:
  fixes u v :: real
  assumes "\<bar>u - v\<bar> \<le> e"
  shows "\<bar>min 1 u - min 1 v\<bar> \<le> e"
  using assms by linarith

lemma diff_error:
  fixes a b d :: real
  assumes "\<bar>d - (b - a)\<bar> \<le> e0" and "\<bar>a - a'\<bar> \<le> e" and "\<bar>b - b'\<bar> \<le> e"
  shows "\<bar>d - (b' - a')\<bar> \<le> e0 + 2 * e"
  using assms by linarith

lemma axis_error:
  fixes lo hi W :: real
  assumes "0 \<le> lo" and "lo \<le> hi" and "hi \<le> 1" and "0 \<le> W"
  defines "a \<equiv> max 0 (fsub lo (toDouble 0.05))" and "b \<equiv> min 1 (fadd hi (toDouble 0.05))"
    and "a' \<equiv> max 0 (min 1 (lo - 0.05))" and "b' \<equiv> max 0 (min 1 (hi + 0.05))"
  shows "\<bar>fmul a W - a' * W\<bar> \<le> W / 2 ^ 51 + ulp W"
    and "\<bar>fmul (fsub b a) W - (b' - a') * W\<bar> \<le> W / 2 ^ 51 + ulp W"
proof -
  let ?P = "toDouble 0.05"
  note P = padding_bounds
  have l1: "lo \<le> 1" and h0: "0 \<le> hi"
    using assms(1-3) by linarith+
  note e = axis_edges [OF assms(2) l1 h0, folded a_def b_def]
  have a1: "a \<le> 1"
    using e by linarith
  note d = extent_bounds [OF e]
  note sa = scaled_bounds [OF e(1) a1 assms(4)]
  note sd = scaled_bounds [OF d(1,2) assms(4)]
  have m: "\<bar>lo - ?P\<bar> < 2" "\<bar>hi + ?P\<bar> < 2"
    using assms(1-3) P(1,3) by linarith+
  have r: "\<bar>fsub lo ?P - (lo - ?P)\<bar> \<le> 1 / 2 ^ 53" "\<bar>fadd hi ?P - (hi + ?P)\<bar> \<le> 1 / 2 ^ 53"
    unfolding fsub_def fadd_def
    by (rule toDouble_error_small [OF m(1)], rule toDouble_error_small [OF m(2)])
  have a': "a' = max 0 (lo - 0.05)"
    using l1 by (simp add: a'_def)
  have b': "b' = min 1 (hi + 0.05)"
    using h0 by (simp add: b'_def)
  have ea: "\<bar>a - a'\<bar> \<le> 1 / 2 ^ 53 + 1 / 2 ^ 58"
    unfolding a_def a' using r(1) P(2) by (intro max0_error abs_diff_step)
  have eb: "\<bar>b - b'\<bar> \<le> 1 / 2 ^ 53 + 1 / 2 ^ 58"
    unfolding b_def b' using r(2) P(2) by (intro min1_error abs_sum_step)
  have "\<bar>fsub b a - (b' - a')\<bar> \<le> 1 / 2 ^ 53 + 2 * (1 / 2 ^ 53 + 1 / 2 ^ 58)"
    using d(3) ea eb by (rule diff_error)
  then have ed: "\<bar>fsub b a - (b' - a')\<bar> \<le> 1 / 2 ^ 51"
    by simp
  have "\<bar>a * W - a' * W\<bar> = \<bar>a - a'\<bar> * W"
    using assms(4) by (simp add: abs_mult flip: left_diff_distrib)
  also have "\<dots> \<le> (1 / 2 ^ 53 + 1 / 2 ^ 58) * W"
    using ea assms(4) by (rule mult_right_mono)
  finally have xa: "\<bar>a * W - a' * W\<bar> \<le> W / 2 ^ 51"
    using assms(4) by simp
  have "\<bar>fsub b a * W - (b' - a') * W\<bar> = \<bar>fsub b a - (b' - a')\<bar> * W"
    using assms(4) by (simp add: abs_mult flip: left_diff_distrib)
  also have "\<dots> \<le> 1 / 2 ^ 51 * W"
    using ed assms(4) by (rule mult_right_mono)
  finally have xd: "\<bar>fsub b a * W - (b' - a') * W\<bar> \<le> W / 2 ^ 51"
    by simp
  have u: "0 < ulp W"
    by (rule ulp_pos)
  show "\<bar>fmul a W - a' * W\<bar> \<le> W / 2 ^ 51 + ulp W"
    using sa(3,4) xa u by linarith
  show "\<bar>fmul (fsub b a) W - (b' - a') * W\<bar> \<le> W / 2 ^ 51 + ulp W"
    using sd(3,4) xd u by linarith
qed

subsection \<open>The scan as a minimum and a maximum\<close>

lemma fold_forEachBody:
  "fold forEachBody ls e =
     \<lparr>minX = fold min (map landmark.x ls) (minX e), minY = fold min (map landmark.y ls) (minY e),
      maxX = fold max (map landmark.x ls) (maxX e), maxY = fold max (map landmark.y ls) (maxY e)\<rparr>"
proof (induction ls arbitrary: e)
  case Nil
  show ?case by simp
next
  case (Cons p ls)
  have "forEachBody p e =
     \<lparr>minX = min (landmark.x p) (minX e), minY = min (landmark.y p) (minY e),
      maxX = max (landmark.x p) (maxX e), maxY = max (landmark.y p) (maxY e)\<rparr>"
    by (simp add: forEachBody_def Let_def min_def max_def)
  then show ?case
    by (simp add: Cons.IH)
qed

lemma fold_min_Min: "fold min (map f ls) (a::real) = Min (insert a (f ` set ls))"
  using Min.set_eq_fold [of a "map f ls"] by simp

lemma fold_max_Max: "fold max (map f ls) (a::real) = Max (insert a (f ` set ls))"
  using Max.set_eq_fold [of a "map f ls"] by simp

lemma getHandBoundingBox_Min_Max:
  "getHandBoundingBox ls width height =
     \<lparr>box.x = fmul (max 0 (fsub (Min (insert 1 (landmark.x ` set ls))) (toDouble 0.05))) width,
      y = fmul (max 0 (fsub (Min (insert 1 (landmark.y ` set ls))) (toDouble 0.05))) height,
      w = fmul (fsub (min 1 (fadd (Max (insert 0 (landmark.x ` set ls))) (toDouble 0.05)))
            (max 0 (fsub (Min (insert 1 (landmark.x ` set ls))) (toDouble 0.05)))) width,
      h = fmul (fsub (min 1 (fadd (Max (insert 0 (landmark.y ` set ls))) (toDouble 0.05)))
            (max 0 (fsub (Min (insert 1 (landmark.y ` set ls))) (toDouble 0.05)))) height\<rparr>"
  unfolding getHandBoundingBox_def Let_def fold_forEachBody fold_min_Min fold_max_Max
  by simp

lemma Min_insert_1:
  assumes "\<exists>p \<in> set ls. f p \<le> (1::real)"
  shows "Min (insert 1 (f ` set ls)) = Min (f ` set ls)"
proof -
  from assms obtain p where p: "p \<in> set ls" "f p \<le> 1" by auto
  then have ne: "f ` set ls \<noteq> {}" by auto
  have "Min (f ` set ls) \<le> f p"
    using p(1) by simp
  with p(2) have "Min (f ` set ls) \<le> 1" by linarith
  moreover have "Min (insert 1 (f ` set ls)) = min 1 (Min (f ` set ls))"
    using ne by (intro Min_insert) simp_all
  ultimately show ?thesis
    by linarith
qed

lemma Max_insert_0:
  assumes "\<exists>p \<in> set ls. (0::real) \<le> f p"
  shows "Max (insert 0 (f ` set ls)) = Max (f ` set ls)"
proof -
  from assms obtain p where p: "p \<in> set ls" "0 \<le> f p" by auto
  then have ne: "f ` set ls \<noteq> {}" by auto
  have "f p \<le> Max (f ` set ls)"
    using p(1) by simp
  with p(2) have "0 \<le> Max (f ` set ls)" by linarith
  moreover have "Max (insert 0 (f ` set ls)) = max 0 (Max (f ` set ls))"
    using ne by (intro Max_insert) simp_all
  ultimately show ?thesis
    by linarith
qed

lemma scan_order:
  assumes "ls \<noteq> []"
  shows "Min (insert 1 (f ` set ls)) \<le> Max (insert 0 (f ` set ls))"
    and "Min (insert 1 (f ` set ls)) \<le> (1::real)" and "(0::real) \<le> Max (insert 0 (f ` set ls))"
proof -
  from assms obtain p where p: "p \<in> set ls"
    by (cases ls) auto
  then have "Min (insert 1 (f ` set ls)) \<le> f p" "f p \<le> Max (insert 0 (f ` set ls))"
    by simp_all
  then show "Min (insert 1 (f ` set ls)) \<le> Max (insert 0 (f ` set ls))"
    by linarith
  show "Min (insert 1 (f ` set ls)) \<le> 1" "0 \<le> Max (insert 0 (f ` set ls))"
    by simp_all
qed

lemma in_range_Min_Max:
  assumes "ls \<noteq> []" and "\<forall>p \<in> set ls. 0 \<le> f p \<and> f p \<le> (1::real)"
  shows "0 \<le> Min (f ` set ls)" and "Min (f ` set ls) \<le> Max (f ` set ls)" and "Max (f ` set ls) \<le> 1"
    and "Min (insert 1 (f ` set ls)) = Min (f ` set ls)"
    and "Max (insert 0 (f ` set ls)) = Max (f ` set ls)"
proof -
  from assms(1) obtain p where p: "p \<in> set ls"
    by (cases ls) auto
  then have ne: "f ` set ls \<noteq> {}" by auto
  show "0 \<le> Min (f ` set ls)" "Max (f ` set ls) \<le> 1"
    using assms(2) ne by simp_all
  have "Min (f ` set ls) \<le> f p" "f p \<le> Max (f ` set ls)"
    using p by simp_all
  then show "Min (f ` set ls) \<le> Max (f ` set ls)"
    by linarith
  have "\<exists>p \<in> set ls. f p \<le> 1" "\<exists>p \<in> set ls. 0 \<le> f p"
    using p assms(2) by auto
  then show "Min (insert 1 (f ` set ls)) = Min (f ` set ls)"
    "Max (insert 0 (f ` set ls)) = Max (f ` set ls)"
    by (simp_all only: Min_insert_1 Max_insert_0)
qed

subsection \<open>The roundings of the concrete hands\<close>

lemma double_02: "toDouble 0.2 = 7205759403792794 / 2 ^ 55"
  by (subst toDouble_eval [of "- 3"])
      (simp_all add: pow2_0 pow2_1 pow2_m1 pow2_numeral pow2_neg_numeral roundTiesToEven_def)

lemma double_06: "toDouble 0.6 = 5404319552844595 / 2 ^ 53"
  by (subst toDouble_eval [of "- 1"])
      (simp_all add: pow2_0 pow2_1 pow2_m1 pow2_numeral pow2_neg_numeral roundTiesToEven_def)

lemma double_03: "toDouble 0.3 = 5404319552844595 / 2 ^ 54"
  by (subst toDouble_eval [of "- 2"])
      (simp_all add: pow2_0 pow2_1 pow2_m1 pow2_numeral pow2_neg_numeral roundTiesToEven_def)

lemma double_05: "toDouble 0.5 = 1 / 2"
  by (subst toDouble_eval [of "- 1"])
      (simp_all add: pow2_0 pow2_1 pow2_m1 pow2_numeral pow2_neg_numeral roundTiesToEven_def)

lemma double_013: "toDouble 0.13 = 4683743612465316 / 2 ^ 55"
  by (subst toDouble_eval [of "- 3"])
      (simp_all add: pow2_0 pow2_1 pow2_m1 pow2_numeral pow2_neg_numeral roundTiesToEven_def)

lemma double_640: "toDouble 640 = 640"
  by (subst toDouble_eval [of "9"])
      (simp_all add: pow2_0 pow2_1 pow2_m1 pow2_numeral pow2_neg_numeral roundTiesToEven_def)

lemma double_480: "toDouble 480 = 480"
  by (subst toDouble_eval [of "8"])
      (simp_all add: pow2_0 pow2_1 pow2_m1 pow2_numeral pow2_neg_numeral roundTiesToEven_def)

lemma span_left: "max 0 (fsub (toDouble 0.2) (toDouble 0.05)) = 5404319552844596 / 2 ^ 55"
proof -
  have s: "toDouble (7205759403792794 / 2 ^ 55 - 7205759403792794 / 2 ^ 57) = 5404319552844596 / 2 ^ 55"
    by (subst toDouble_eval [of "- 3"])
      (simp_all add: pow2_0 pow2_1 pow2_m1 pow2_numeral pow2_neg_numeral roundTiesToEven_def)
  show ?thesis
    unfolding fsub_def double_02 padding_value s by simp
qed

lemma span_right: "min 1 (fadd (toDouble 0.6) (toDouble 0.05)) = 5854679515581645 / 2 ^ 53"
proof -
  have s: "toDouble (5404319552844595 / 2 ^ 53 + 7205759403792794 / 2 ^ 57) = 5854679515581645 / 2 ^ 53"
    by (subst toDouble_eval [of "- 1"])
      (simp_all add: pow2_0 pow2_1 pow2_m1 pow2_numeral pow2_neg_numeral roundTiesToEven_def)
  show ?thesis
    unfolding fadd_def double_06 padding_value s by simp
qed

lemma span_top: "max 0 (fsub (toDouble 0.3) (toDouble 0.05)) = 1 / 4"
proof -
  have s: "toDouble (5404319552844595 / 2 ^ 54 - 7205759403792794 / 2 ^ 57) = 1 / 4"
    by (subst toDouble_eval [of "- 3"])
      (simp_all add: pow2_0 pow2_1 pow2_m1 pow2_numeral pow2_neg_numeral roundTiesToEven_def)
  show ?thesis
    unfolding fsub_def double_03 padding_value s by simp
qed

lemma span_bottom: "min 1 (fadd (toDouble 0.5) (toDouble 0.05)) = 4953959590107546 / 2 ^ 53"
proof -
  have s: "toDouble (1 / 2 + 7205759403792794 / 2 ^ 57) = 4953959590107546 / 2 ^ 53"
    by (subst toDouble_eval [of "- 1"])
      (simp_all add: pow2_0 pow2_1 pow2_m1 pow2_numeral pow2_neg_numeral roundTiesToEven_def)
  show ?thesis
    unfolding fadd_def double_05 padding_value s by simp
qed

lemma span_x: "fmul (max 0 (fsub (toDouble 0.2) (toDouble 0.05))) 640 = 96 + 1 / 2 ^ 46"
  unfolding span_left fmul_def
  by (subst toDouble_eval [of "6"])
      (simp_all add: pow2_0 pow2_1 pow2_m1 pow2_numeral pow2_neg_numeral roundTiesToEven_def)

lemma span_y: "fmul (max 0 (fsub (toDouble 0.3) (toDouble 0.05))) 480 = 120"
  unfolding span_top fmul_def
  by (subst toDouble_eval [of "6"])
      (simp_all add: pow2_0 pow2_1 pow2_m1 pow2_numeral pow2_neg_numeral roundTiesToEven_def)

lemma span_w:
  "fmul (fsub (min 1 (fadd (toDouble 0.6) (toDouble 0.05)))
      (max 0 (fsub (toDouble 0.2) (toDouble 0.05)))) 640 = 320"
proof -
  have d: "toDouble (5854679515581645 / 2 ^ 53 - 5404319552844596 / 2 ^ 55) = 1 / 2"
    by (subst toDouble_eval [of "- 1"])
      (simp_all add: pow2_0 pow2_1 pow2_m1 pow2_numeral pow2_neg_numeral roundTiesToEven_def)
  have m: "toDouble (1 / 2 * 640) = 320"
    by (subst toDouble_eval [of "8"])
      (simp_all add: pow2_0 pow2_1 pow2_m1 pow2_numeral pow2_neg_numeral roundTiesToEven_def)
  show ?thesis
    unfolding span_left span_right unfolding fsub_def d fmul_def m ..
qed

lemma span_h:
  "fmul (fsub (min 1 (fadd (toDouble 0.5) (toDouble 0.05)))
      (max 0 (fsub (toDouble 0.3) (toDouble 0.05)))) 480 = 144 + 1 / 2 ^ 45"
proof -
  have d: "toDouble (4953959590107546 / 2 ^ 53 - 1 / 4) = 5404319552844596 / 2 ^ 54"
    by (subst toDouble_eval [of "- 2"])
      (simp_all add: pow2_0 pow2_1 pow2_m1 pow2_numeral pow2_neg_numeral roundTiesToEven_def)
  have m: "toDouble (5404319552844596 / 2 ^ 54 * 480) = 144 + 1 / 2 ^ 45"
    by (subst toDouble_eval [of "7"])
      (simp_all add: pow2_0 pow2_1 pow2_m1 pow2_numeral pow2_neg_numeral roundTiesToEven_def)
  show ?thesis
    unfolding span_top span_bottom unfolding fsub_def d fmul_def m ..
qed

lemma spanHand_span:
  "Min (landmark.x ` set spanHand) = toDouble 0.2" "Max (landmark.x ` set spanHand) = toDouble 0.6"
  "Min (landmark.y ` set spanHand) = toDouble 0.3" "Max (landmark.y ` set spanHand) = toDouble 0.5"
  unfolding spanHand_def double_02 double_06 double_03 double_05
  by (simp_all add: pt_def)

lemma spanHand_in_range:
  "\<forall>p \<in> set spanHand. 0 \<le> landmark.x p \<and> landmark.x p \<le> 1 \<and> 0 \<le> landmark.y p \<and> landmark.y p \<le> 1"
  unfolding spanHand_def double_02 double_06 double_03 double_05
  by (simp add: pt_def)

lemma corner_left: "max 0 (fsub (toDouble 0.13) (toDouble 0.05)) = 5764607523034235 / 2 ^ 56"
proof -
  have s: "toDouble (4683743612465316 / 2 ^ 55 - 7205759403792794 / 2 ^ 57) = 5764607523034235 / 2 ^ 56"
    by (subst toDouble_eval [of "- 4"])
      (simp_all add: pow2_0 pow2_1 pow2_m1 pow2_numeral pow2_neg_numeral roundTiesToEven_def)
  show ?thesis
    unfolding fsub_def double_013 padding_value s by simp
qed

lemma corner_right: "min 1 (fadd 1 (toDouble 0.05)) = 1"
proof -
  have "toDouble 1 \<le> toDouble (1 + toDouble 0.05)"
    using padding_bounds(1) by (intro toDouble_mono) linarith+
  then show ?thesis
    by (simp add: fadd_def toDouble_1)
qed

lemma corner_x: "fmul (max 0 (fsub (toDouble 0.13) (toDouble 0.05))) 640 = 7205759403792794 / 2 ^ 47"
  unfolding corner_left fmul_def
  by (subst toDouble_eval [of "5"])
      (simp_all add: pow2_0 pow2_1 pow2_m1 pow2_numeral pow2_neg_numeral roundTiesToEven_def)

lemma corner_w:
  "fmul (fsub (min 1 (fadd 1 (toDouble 0.05)))
      (max 0 (fsub (toDouble 0.13) (toDouble 0.05)))) 640 = 5179139571476071 / 2 ^ 43"
proof -
  have d: "toDouble (1 - 5764607523034235 / 2 ^ 56) = 8286623314361713 / 2 ^ 53"
    by (subst toDouble_eval [of "- 1"])
      (simp_all add: pow2_0 pow2_1 pow2_m1 pow2_numeral pow2_neg_numeral roundTiesToEven_def)
  have m: "toDouble (8286623314361713 / 2 ^ 53 * 640) = 5179139571476071 / 2 ^ 43"
    by (subst toDouble_eval [of "9"])
      (simp_all add: pow2_0 pow2_1 pow2_m1 pow2_numeral pow2_neg_numeral roundTiesToEven_def)
  show ?thesis
    unfolding corner_left corner_right unfolding fsub_def d fmul_def m ..
qed

lemma cornerHand_scan:
  "Min (insert 1 (landmark.x ` set cornerHand)) = toDouble 0.13"
  "Max (insert 0 (landmark.x ` set cornerHand)) = 1"
proof -
  have "toDouble 0.13 \<le> 1"
    unfolding double_013 by simp
  then show "Min (insert 1 (landmark.x ` set cornerHand)) = toDouble 0.13"
    "Max (insert 0 (landmark.x ` set cornerHand)) = 1"
    by (simp_all add: cornerHand_def pt_def)
qed

text \<open>
  C6. In double arithmetic the figures of the claim hold approximately, not exactly. As
  amended: for every set of 21 landmarks (here any non-empty array) with normalized
  coordinates in \<open>[0, 1]\<close> and all non-negative frame dimensions,
  \<^verbatim>\<open>getHandBoundingBox\<close> returns the minimal axis-aligned rectangle enclosing all
  landmarks, expanded by 0.05 on each side, clipped to the unit square and scaled by
  width and height, up to the rounding of doubles: \<open>x\<close> and \<open>w\<close> are within
  \<open>width / 2 ^ 51 + ulp width\<close> of the exact values, \<open>y\<close> and \<open>h\<close> within
  \<open>height / 2 ^ 51 + ulp height\<close>. For landmarks spanning \<open>x\<close> from the double 0.2 to the
  double 0.6 and \<open>y\<close> from the double 0.3 to 0.5 on a 640 by 480 frame it returns
  \<open>x = 96 + 1 / 2 ^ 46\<close> (printed 96.00000000000001), \<open>y = 120\<close>, \<open>w = 320\<close> and
  \<open>h = 144 + 1 / 2 ^ 45\<close> (printed 144.00000000000003), which are \<open>0.15 * 640\<close>,
  \<open>0.25 * 480\<close>, \<open>0.5 * 640\<close> and \<open>0.3 * 480\<close> to within \<open>1 / 2 ^ 45\<close>.
\<close>

theorem getHandBoundingBox_spec:
  assumes "landmarks \<noteq> []"
    and "\<forall>p \<in> set landmarks. 0 \<le> landmark.x p \<and> landmark.x p \<le> 1"
    and "\<forall>p \<in> set landmarks. 0 \<le> landmark.y p \<and> landmark.y p \<le> 1"
    and "0 \<le> width" and "0 \<le> height"
  shows "\<bar>box.x (getHandBoundingBox landmarks width height)
            - box.x (specBoundingBox landmarks width height)\<bar> \<le> width / 2 ^ 51 + ulp width
       \<and> \<bar>box.y (getHandBoundingBox landmarks width height)
            - box.y (specBoundingBox landmarks width height)\<bar> \<le> height / 2 ^ 51 + ulp height
       \<and> \<bar>w (getHandBoundingBox landmarks width height)
            - w (specBoundingBox landmarks width height)\<bar> \<le> width / 2 ^ 51 + ulp width
       \<and> \<bar>h (getHandBoundingBox landmarks width height)
            - h (specBoundingBox landmarks width height)\<bar> \<le> height / 2 ^ 51 + ulp height
       \<and> (Min (landmark.x ` set landmarks) = toDouble 0.2 \<and> Max (landmark.x ` set landmarks) = toDouble 0.6
          \<and> Min (landmark.y ` set landmarks) = toDouble 0.3 \<and> Max (landmark.y ` set landmarks) = toDouble 0.5
          \<longrightarrow> getHandBoundingBox landmarks 640 480
                = \<lparr>box.x = 96 + 1 / 2 ^ 46, y = 120, w = 320, h = 144 + 1 / 2 ^ 45\<rparr>
              \<and> \<bar>box.x (getHandBoundingBox landmarks 640 480) - 0.15 * 640\<bar> \<le> 1 / 2 ^ 45
              \<and> \<bar>box.y (getHandBoundingBox landmarks 640 480) - 0.25 * 480\<bar> \<le> 1 / 2 ^ 45
              \<and> \<bar>w (getHandBoundingBox landmarks 640 480) - 0.5 * 640\<bar> \<le> 1 / 2 ^ 45
              \<and> \<bar>h (getHandBoundingBox landmarks 640 480) - 0.3 * 480\<bar> \<le> 1 / 2 ^ 45)"
proof -
  let ?l = "Min (landmark.x ` set landmarks)" and ?r = "Max (landmark.x ` set landmarks)"
  let ?t = "Min (landmark.y ` set landmarks)" and ?b = "Max (landmark.y ` set landmarks)"
  note X = in_range_Min_Max [OF assms(1,2)]
  note Y = in_range_Min_Max [OF assms(1,3)]
  have g: "getHandBoundingBox landmarks wd ht =
     \<lparr>box.x = fmul (max 0 (fsub ?l (toDouble 0.05))) wd,
      y = fmul (max 0 (fsub ?t (toDouble 0.05))) ht,
      w = fmul (fsub (min 1 (fadd ?r (toDouble 0.05))) (max 0 (fsub ?l (toDouble 0.05)))) wd,
      h = fmul (fsub (min 1 (fadd ?b (toDouble 0.05))) (max 0 (fsub ?t (toDouble 0.05)))) ht\<rparr>"
    for wd ht
    unfolding getHandBoundingBox_Min_Max X(4,5) Y(4,5) ..
  have s: "specBoundingBox landmarks width height =
     \<lparr>box.x = max 0 (min 1 (?l - 0.05)) * width,
      y = max 0 (min 1 (?t - 0.05)) * height,
      w = (max 0 (min 1 (?r + 0.05)) - max 0 (min 1 (?l - 0.05))) * width,
      h = (max 0 (min 1 (?b + 0.05)) - max 0 (min 1 (?t - 0.05))) * height\<rparr>"
    unfolding specBoundingBox_def Let_def ..
  note ex = axis_error [OF X(1,2,3) assms(4)]
  note ey = axis_error [OF Y(1,2,3) assms(5)]
  have approx: "\<bar>box.x (getHandBoundingBox landmarks width height)
            - box.x (specBoundingBox landmarks width height)\<bar> \<le> width / 2 ^ 51 + ulp width"
    "\<bar>box.y (getHandBoundingBox landmarks width height)
            - box.y (specBoundingBox landmarks width height)\<bar> \<le> height / 2 ^ 51 + ulp height"
    "\<bar>w (getHandBoundingBox landmarks width height)
            - w (specBoundingBox landmarks width height)\<bar> \<le> width / 2 ^ 51 + ulp width"
    "\<bar>h (getHandBoundingBox landmarks width height)
            - h (specBoundingBox landmarks width height)\<bar> \<le> height / 2 ^ 51 + ulp height"
    unfolding g s box.simps by (rule ex ey)+
  have example: "getHandBoundingBox landmarks 640 480
      = \<lparr>box.x = 96 + 1 / 2 ^ 46, y = 120, w = 320, h = 144 + 1 / 2 ^ 45\<rparr>"
    if "?l = toDouble 0.2" "?r = toDouble 0.6" "?t = toDouble 0.3" "?b = toDouble 0.5"
    unfolding g that span_x span_y span_w span_h ..
  have close: "\<bar>box.x (getHandBoundingBox landmarks 640 480) - 0.15 * 640\<bar> \<le> 1 / 2 ^ 45
      \<and> \<bar>box.y (getHandBoundingBox landmarks 640 480) - 0.25 * 480\<bar> \<le> 1 / 2 ^ 45
      \<and> \<bar>w (getHandBoundingBox landmarks 640 480) - 0.5 * 640\<bar> \<le> 1 / 2 ^ 45
      \<and> \<bar>h (getHandBoundingBox landmarks 640 480) - 0.3 * 480\<bar> \<le> 1 / 2 ^ 45"
    if "?l = toDouble 0.2" "?r = toDouble 0.6" "?t = toDouble 0.3" "?b = toDouble 0.5"
    unfolding example [OF that] by simp
  from approx example close show ?thesis
    by blast
qed

theorem getHandBoundingBox_spec_witness:
  "\<bar>box.x (getHandBoundingBox spanHand 640 480) - box.x (specBoundingBox spanHand 640 480)\<bar>
      \<le> 640 / 2 ^ 51 + ulp 640
   \<and> \<bar>h (getHandBoundingBox spanHand 640 480) - h (specBoundingBox spanHand 640 480)\<bar>
      \<le> 480 / 2 ^ 51 + ulp 480
   \<and> getHandBoundingBox spanHand 640 480
      = \<lparr>box.x = 96 + 1 / 2 ^ 46, y = 120, w = 320, h = 144 + 1 / 2 ^ 45\<rparr>"
proof -
  have n: "spanHand \<noteq> []"
    by (simp add: spanHand_def)
  have r: "\<forall>p \<in> set spanHand. 0 \<le> landmark.x p \<and> landmark.x p \<le> 1"
    "\<forall>p \<in> set spanHand. 0 \<le> landmark.y p \<and> landmark.y p \<le> 1"
    using spanHand_in_range by blast+
  have d: "(0::real) \<le> 640" "(0::real) \<le> 480"
    by simp_all
  note t = getHandBoundingBox_spec [OF n r d]
  from t spanHand_span show ?thesis
    by blast
qed

text \<open>
  The claim as stated fails on a hand of 21 landmarks with coordinates in \<open>[0, 1]\<close> that
  spans \<open>x\<close> from 0.2 to 0.6 and \<open>y\<close> from 0.3 to 0.5: on a 640 by 480 frame \<open>x\<close> is not
  \<open>0.15 * 640\<close> and \<open>h\<close> is not \<open>0.3 * 480\<close>, whether these two products are taken exactly
  or in doubles.
\<close>

theorem getHandBoundingBox_figures_counterexample:
  "length spanHand = 21
   \<and> Min (landmark.x ` set spanHand) = toDouble 0.2 \<and> Max (landmark.x ` set spanHand) = toDouble 0.6
   \<and> Min (landmark.y ` set spanHand) = toDouble 0.3 \<and> Max (landmark.y ` set spanHand) = toDouble 0.5
   \<and> box.x (getHandBoundingBox spanHand 640 480) = 96 + 1 / 2 ^ 46
   \<and> h (getHandBoundingBox spanHand 640 480) = 144 + 1 / 2 ^ 45
   \<and> fmul (toDouble 0.15) 640 = 96 \<and> fmul (toDouble 0.3) 480 = 144
   \<and> box.x (getHandBoundingBox spanHand 640 480) \<noteq> 0.15 * 640
   \<and> h (getHandBoundingBox spanHand 640 480) \<noteq> 0.3 * 480"
proof -
  have l: "length spanHand = 21"
    by (simp add: spanHand_def)
  have m: "Min (insert 1 (landmark.x ` set spanHand)) = toDouble 0.2"
    "Max (insert 0 (landmark.x ` set spanHand)) = toDouble 0.6"
    "Min (insert 1 (landmark.y ` set spanHand)) = toDouble 0.3"
    "Max (insert 0 (landmark.y ` set spanHand)) = toDouble 0.5"
    unfolding spanHand_def double_02 double_06 double_03 double_05
    by (simp_all add: pt_def)
  have b: "getHandBoundingBox spanHand 640 480
      = \<lparr>box.x = 96 + 1 / 2 ^ 46, y = 120, w = 320, h = 144 + 1 / 2 ^ 45\<rparr>"
    unfolding getHandBoundingBox_Min_Max m span_x span_y span_w span_h ..
  have p: "toDouble 0.15 = 5404319552844595 / 2 ^ 55"
    by (subst toDouble_eval [of "- 3"])
      (simp_all add: pow2_0 pow2_1 pow2_m1 pow2_numeral pow2_neg_numeral roundTiesToEven_def)
  have q: "fmul (toDouble 0.15) 640 = 96"
    unfolding p fmul_def
    by (subst toDouble_eval [of "6"])
      (simp_all add: pow2_0 pow2_1 pow2_m1 pow2_numeral pow2_neg_numeral roundTiesToEven_def)
  have q': "fmul (toDouble 0.3) 480 = 144"
    unfolding double_03 fmul_def
    by (subst toDouble_eval [of "7"])
      (simp_all add: pow2_0 pow2_1 pow2_m1 pow2_numeral pow2_neg_numeral roundTiesToEven_def)
  have v: "box.x (getHandBoundingBox spanHand 640 480) = 96 + 1 / 2 ^ 46"
    "h (getHandBoundingBox spanHand 640 480) = 144 + 1 / 2 ^ 45"
    unfolding b by simp_all
  have ne: "box.x (getHandBoundingBox spanHand 640 480) \<noteq> 0.15 * 640"
    "h (getHandBoundingBox spanHand 640 480) \<noteq> 0.3 * 480"
    unfolding v by simp_all
  from l spanHand_span v q q' ne show ?thesis
    by (intro conjI)
qed

text \<open>
  C10. In double arithmetic \<open>x + w\<close> can exceed the width by rounding. As amended: for
  every set of 21 landmarks (here any non-empty array, so in particular with coordinates
  in \<open>[0, 1]\<close>) and every non-negative frame width and height that are doubles, the
  rectangle returned by \<^verbatim>\<open>getHandBoundingBox\<close> has \<open>0 \<le> x \<le> width\<close>, \<open>0 \<le> y \<le> height\<close>,
  \<open>0 \<le> w \<le> width\<close> and \<open>0 \<le> h \<le> height\<close>, and it lies within the frame up to rounding:
  \<open>x + w \<le> width + 2 * ulp width\<close> and \<open>y + h \<le> height + 2 * ulp height\<close>.
\<close>

theorem getHandBoundingBox_within_frame:
  assumes "landmarks \<noteq> []"
    and "0 \<le> width" and "isDouble width" and "0 \<le> height" and "isDouble height"
  shows "0 \<le> box.x (getHandBoundingBox landmarks width height)
       \<and> box.x (getHandBoundingBox landmarks width height) \<le> width
       \<and> 0 \<le> box.y (getHandBoundingBox landmarks width height)
       \<and> box.y (getHandBoundingBox landmarks width height) \<le> height
       \<and> 0 \<le> w (getHandBoundingBox landmarks width height)
       \<and> w (getHandBoundingBox landmarks width height) \<le> width
       \<and> 0 \<le> h (getHandBoundingBox landmarks width height)
       \<and> h (getHandBoundingBox landmarks width height) \<le> height
       \<and> box.x (getHandBoundingBox landmarks width height)
            + w (getHandBoundingBox landmarks width height) \<le> width + 2 * ulp width
       \<and> box.y (getHandBoundingBox landmarks width height)
            + h (getHandBoundingBox landmarks width height) \<le> height + 2 * ulp height"
proof -
  have dw: "toDouble width = width" and dh: "toDouble height = height"
    using assms(3,5) by (simp_all add: isDouble_def)
  note fx = axis_frame [OF scan_order [OF assms(1), of landmark.x] assms(2), unfolded dw]
  note fy = axis_frame [OF scan_order [OF assms(1), of landmark.y] assms(4), unfolded dh]
  show ?thesis
    unfolding getHandBoundingBox_Min_Max box.simps
    by (intro conjI) (rule fx fy)+
qed

theorem getHandBoundingBox_within_frame_witness:
  "0 \<le> box.x (getHandBoundingBox spanHand 640 480)
   \<and> box.x (getHandBoundingBox spanHand 640 480) \<le> 640
   \<and> 0 \<le> w (getHandBoundingBox spanHand 640 480)
   \<and> w (getHandBoundingBox spanHand 640 480) \<le> 640
   \<and> box.x (getHandBoundingBox spanHand 640 480) + w (getHandBoundingBox spanHand 640 480)
        \<le> 640 + 2 * ulp 640
   \<and> box.y (getHandBoundingBox spanHand 640 480) + h (getHandBoundingBox spanHand 640 480)
        \<le> 480 + 2 * ulp 480"
proof -
  have n: "spanHand \<noteq> []"
    by (simp add: spanHand_def)
  have d: "isDouble 640" "isDouble 480"
    unfolding isDouble_def double_640 double_480 by (simp_all add: maxDouble_def)
  have p: "(0::real) \<le> 640" "(0::real) \<le> 480"
    by simp_all
  note t = getHandBoundingBox_within_frame [OF n p(1) d(1) p(2) d(2)]
  from t show ?thesis
    by blast
qed

text \<open>
  The claim as stated fails on a hand of 21 landmarks with coordinates in \<open>[0, 1]\<close>, one
  at the double 0.13 and twenty at 1, on a frame of width 640: \<open>x\<close> is the double 51.2,
  \<open>w\<close> the double 588.8000000000001, and their sum exceeds 640, taken exactly or in
  doubles.
\<close>

theorem getHandBoundingBox_overhang_counterexample:
  "length cornerHand = 21
   \<and> 0 \<le> toDouble 0.13 \<and> toDouble 0.13 \<le> 1
   \<and> isDouble 640
   \<and> box.x (getHandBoundingBox cornerHand 640 480) = 7205759403792794 / 2 ^ 47
   \<and> w (getHandBoundingBox cornerHand 640 480) = 5179139571476071 / 2 ^ 43
   \<and> box.x (getHandBoundingBox cornerHand 640 480) + w (getHandBoundingBox cornerHand 640 480)
        = 640 + 5 / 2 ^ 46
   \<and> fadd (box.x (getHandBoundingBox cornerHand 640 480)) (w (getHandBoundingBox cornerHand 640 480))
        = 640 + 1 / 2 ^ 43
   \<and> \<not> box.x (getHandBoundingBox cornerHand 640 480) + w (getHandBoundingBox cornerHand 640 480)
        \<le> 640"
proof -
  have l: "length cornerHand = 21"
    by (simp add: cornerHand_def)
  have r: "0 \<le> toDouble 0.13" "toDouble 0.13 \<le> 1"
    unfolding double_013 by simp_all
  have d: "isDouble 640"
    unfolding isDouble_def double_640 by (simp add: maxDouble_def)
  have v: "box.x (getHandBoundingBox cornerHand 640 480) = 7205759403792794 / 2 ^ 47"
    "w (getHandBoundingBox cornerHand 640 480) = 5179139571476071 / 2 ^ 43"
    unfolding getHandBoundingBox_Min_Max box.simps cornerHand_scan corner_x corner_w
    by (rule refl)+
  have s: "box.x (getHandBoundingBox cornerHand 640 480) + w (getHandBoundingBox cornerHand 640 480)
      = 640 + 5 / 2 ^ 46"
    unfolding v by simp
  have f: "fadd (box.x (getHandBoundingBox cornerHand 640 480)) (w (getHandBoundingBox cornerHand 640 480))
      = 640 + 1 / 2 ^ 43"
    unfolding v fadd_def
    by (subst toDouble_eval [of "9"])
      (simp_all add: pow2_0 pow2_1 pow2_m1 pow2_numeral pow2_neg_numeral roundTiesToEven_def)
  have g: "\<not> box.x (getHandBoundingBox cornerHand 640 480) + w (getHandBoundingBox cornerHand 640 480)
      \<le> 640"
    unfolding s by simp
  from l r d v s f g show ?thesis
    by (intro conjI)
qed

end
